theory Spec2Isabelle
  imports Main "HOL-Library.Char_ord" "HOL-Library.List_Lexorder" "HOL-Library.Multiset"
begin

section \<open>Strings\<close>

text \<open>
  A Python \<open>str\<close> is a sequence of code points. The model is \<open>string\<close>, a list of 8-bit
  characters, each read as one code point in the range U+0000 to U+00FF; text outside that
  range is outside the model. Python compares strings lexicographically by code point,
  which is the order of \<open>List_Lexorder\<close> over \<open>Char_ord\<close>.
\<close>

definition nl :: char where
  "nl = CHR 0x0A"

definition pipe :: char where
  "pipe = CHR ''|''"

definition backslash :: char where
  "backslash = CHR 0x5C"

text \<open>\<open>str.lower()\<close> on code points below 256: A-Z and the capital letters U+00C0 to
  U+00DE (without the multiplication sign U+00D7) move up by 32.\<close>

definition lower_char :: "char \<Rightarrow> char" where
  "lower_char c =
     (let n = (of_char c :: nat)
      in if (65 \<le> n \<and> n \<le> 90) \<or> (192 \<le> n \<and> n \<le> 222 \<and> n \<noteq> 215)
         then char_of (n + 32) else c)"

definition lower :: "string \<Rightarrow> string" where
  "lower s = map lower_char s"

text \<open>\<open>s.startswith(k)\<close> and the substring test \<open>k in s\<close>.\<close>

fun startswith :: "string \<Rightarrow> string \<Rightarrow> bool" where
  "startswith s [] = True"
| "startswith [] (k # ks) = False"
| "startswith (c # cs) (k # ks) = (c = k \<and> startswith cs ks)"

fun str_contains :: "string \<Rightarrow> string \<Rightarrow> bool" where
  "str_contains [] k = (k = [])"
| "str_contains (c # cs) k = (startswith (c # cs) k \<or> str_contains cs k)"

text \<open>\<open>s.replace(old, new)\<close>: scan from the left, replace each non-overlapping occurrence.
  With an empty \<open>old\<close> Python puts \<open>new\<close> before every character and at the end.\<close>

function replace_scan :: "string \<Rightarrow> string \<Rightarrow> string \<Rightarrow> string" where
  "replace_scan old new [] = []"
| "replace_scan old new (c # cs) =
     (if old \<noteq> [] \<and> startswith (c # cs) old
      then new @ replace_scan old new (drop (length old) (c # cs))
      else c # replace_scan old new cs)"
  by pat_completeness auto
termination
  by (relation "measure (\<lambda>(old, new, s). length s)") auto

definition replace :: "string \<Rightarrow> string \<Rightarrow> string \<Rightarrow> string" where
  "replace s old new =
     (if old = [] then new @ concat (map (\<lambda>c. c # new) s) else replace_scan old new s)"

section \<open>Classifier\<close>

definition auto_keywords :: "string list" where
  "auto_keywords = [''always'', ''automatically'', ''every'']"

text \<open>\<open>is_auto_invoked\<close>: \<open>None\<close> is Python's \<open>None\<close> (an absent description), which
  \<open>not description\<close> rejects together with the empty string.\<close>

fun is_auto_invoked :: "string option \<Rightarrow> bool" where
  "is_auto_invoked None = False"
| "is_auto_invoked (Some description) =
     (if description = [] then False
      else (let description_lower = lower description
            in list_ex (\<lambda>keyword. str_contains description_lower keyword) auto_keywords))"

definition generate_command :: "string \<Rightarrow> string option \<Rightarrow> string" where
  "generate_command skill_name description =
     (if is_auto_invoked description then ''Auto-invoked'' else CHR ''/'' # skill_name)"

section \<open>Renderer\<close>

record skill =
  name :: string
  description :: string
  path :: string

definition header :: string where
  "header = ''# Skills'' @ [nl] @ [nl]
     @ ''This repository contains Claude Code skills. The README is automatically generated from skill definitions.''
     @ [nl] @ [nl] @ ''## Available Skills'' @ [nl] @ [nl]
     @ ''| Skill | Description | Command |'' @ [nl]
     @ ''|-------|-------------|---------|'' @ [nl]"

definition escape_description :: "string \<Rightarrow> string" where
  "escape_description d = replace d [pipe] [backslash, pipe]"

definition skill_link :: "skill \<Rightarrow> string" where
  "skill_link sk = ''['' @ name sk @ '']('' @ path sk @ '')''"

text \<open>One pass of the loop body: the line appended to \<open>readme\<close> for one skill.\<close>

definition render_row :: "skill \<Rightarrow> string" where
  "render_row sk =
     (let command = generate_command (name sk) (Some (description sk));
          description' = escape_description (description sk)
      in ''| '' @ skill_link sk @ '' | '' @ description' @ '' | '' @ command @ '' |'' @ [nl])"

definition footer :: "string \<Rightarrow> string" where
  "footer timestamp = [nl] @ ''---'' @ [nl] @ ''*Last updated: '' @ timestamp @ ''*'' @ [nl]"

text \<open>
  \<open>generate_readme\<close> sorts the caller's list in place (\<open>list.sort\<close> is stable and
  ascending by key), so the model returns the list as the call leaves it together with the
  text. The clock is an argument: \<open>timestamp\<close> is what
  \<open>datetime.now(timezone.utc).strftime(...)\<close> gives during the call.
\<close>

definition generate_readme :: "skill list \<Rightarrow> string \<Rightarrow> skill list \<times> string" where
  "generate_readme skills timestamp =
     (let skills' = sort_key (\<lambda>x. lower (name x)) skills;
          readme = foldl (\<lambda>readme sk. readme @ render_row sk) header skills'
      in (skills', readme @ footer timestamp))"

section \<open>Decoded frontmatter values\<close>

text \<open>
  What \<open>yaml.safe_load\<close> can hand back: \<open>None\<close>, booleans, integers, strings, lists and
  dictionaries (floats, dates and binary values are left out). A dictionary is an
  association list, looked up with \<open>map_of\<close>.
\<close>

datatype yaml =
    YNull
  | YBool bool
  | YInt int
  | YStr string
  | YList "yaml list"
  | YDict "(yaml \<times> yaml) list"

datatype error =
    YAMLError
  | LoaderFailure
  | TypeError
  | AttributeError
  | KeyError
  | IsADirectoryError
  | FileNotFoundError

text \<open>The decoder is a library outside the repository, so it is an argument of the
  model: it returns a value, raises \<open>yaml.YAMLError\<close> on malformed syntax, or raises
  something else (\<open>LoaderFailure\<close>).\<close>

type_synonym loader = "string \<Rightarrow> error + yaml"

fun truthy :: "yaml \<Rightarrow> bool" where
  "truthy YNull = False"
| "truthy (YBool b) = b"
| "truthy (YInt i) = (i \<noteq> 0)"
| "truthy (YStr s) = (s \<noteq> [])"
| "truthy (YList xs) = (xs \<noteq> [])"
| "truthy (YDict kvs) = (kvs \<noteq> [])"

definition bind_err :: "error + 'a \<Rightarrow> ('a \<Rightarrow> error + 'b) \<Rightarrow> error + 'b" where
  "bind_err m f = (case m of Inl e \<Rightarrow> Inl e | Inr x \<Rightarrow> f x)"

section \<open>Metadata extractor\<close>

text \<open>\<open>\s\<close> of a \<open>str\<close> pattern, on code points below 256.\<close>

definition is_space :: "char \<Rightarrow> bool" where
  "is_space c =
     (let n = (of_char c :: nat)
      in (9 \<le> n \<and> n \<le> 13) \<or> (28 \<le> n \<and> n \<le> 32) \<or> n = 133 \<or> n = 160)"

text \<open>
  The pattern \<^verbatim>\<open>^---\s*\n(.*?)\n---\s*\n\<close> with \<open>re.DOTALL\<close>, matched by \<open>re.match\<close>
  (anchored at the start, free at the end), as the backtracking matcher runs it: a greedy
  \<open>\s*\<close> first tries to take one more character and gives it back only when the rest
  fails; the lazy group first tries to stop and grows only when the rest fails.
\<close>

text \<open>\<^verbatim>\<open>\s*\n\<close> matches at the start of \<open>s\<close>.\<close>

fun marker_end :: "string \<Rightarrow> bool" where
  "marker_end [] = False"
| "marker_end (c # cs) = (if is_space c then (marker_end cs \<or> c = nl) else False)"

text \<open>\<^verbatim>\<open>\n---\s*\n\<close> matches at the start of \<open>s\<close>.\<close>

definition closing :: "string \<Rightarrow> bool" where
  "closing s = (startswith s (nl # ''---'') \<and> marker_end (drop 4 s))"

text \<open>\<^verbatim>\<open>(.*?)\n---\s*\n\<close> at the start of \<open>s\<close>: the group.\<close>

fun lazy_group :: "string \<Rightarrow> string option" where
  "lazy_group [] = (if closing [] then Some [] else None)"
| "lazy_group (c # cs) =
     (if closing (c # cs) then Some [] else map_option ((#) c) (lazy_group cs))"

text \<open>\<^verbatim>\<open>\s*\n(.*?)\n---\s*\n\<close> at the start of \<open>s\<close>: the group.\<close>

fun opening_rest :: "string \<Rightarrow> string option" where
  "opening_rest [] = None"
| "opening_rest (c # cs) =
     (if is_space c
      then (case opening_rest cs of
              Some g \<Rightarrow> Some g
            | None \<Rightarrow> (if c = nl then lazy_group cs else None))
      else None)"

text \<open>\<open>re.match(...)\<close>: \<open>None\<close> when there is no match, otherwise \<open>match.group(1)\<close>.\<close>

definition re_match :: "string \<Rightarrow> string option" where
  "re_match content =
     (if startswith content ''---'' then opening_rest (drop 3 content) else None)"

text \<open>\<open>parse_frontmatter\<close> on the text already read from the file.\<close>

definition parse_content :: "loader \<Rightarrow> string \<Rightarrow> error + yaml" where
  "parse_content safe_load content =
     (case re_match content of
        None \<Rightarrow> Inr (YDict [])
      | Some frontmatter_text \<Rightarrow>
          (case safe_load frontmatter_text of
             Inr v \<Rightarrow> Inr (if truthy v then v else YDict [])
           | Inl YAMLError \<Rightarrow> Inr (YDict [])
           | Inl e \<Rightarrow> Inl e))"

section \<open>Discovery and file access\<close>

text \<open>The directory tree under the root: a directory lists its entries in the order
  \<open>iterdir\<close> yields them. A path is the list of its components below the root, and
  \<open>str_path\<close> is \<open>str\<close> of it with the separator of a POSIX system.\<close>

datatype node = File string | Dir "(string \<times> node) list"

type_synonym fpath = "string list"

fun str_path :: "fpath \<Rightarrow> string" where
  "str_path [] = ''.''"
| "str_path [n] = n"
| "str_path (n # ns) = n @ ''/'' @ str_path ns"

fun find_skill_files :: "(string \<times> node) list \<Rightarrow> fpath list" where
  "find_skill_files [] = []"
| "find_skill_files ((item, Dir children) # rest) =
     (if \<not> startswith item ''.'' \<and> map_of children ''SKILL.md'' \<noteq> None
      then [item, ''SKILL.md''] # find_skill_files rest
      else find_skill_files rest)"
| "find_skill_files ((item, File c) # rest) = find_skill_files rest"

fun lookup_path :: "(string \<times> node) list \<Rightarrow> fpath \<Rightarrow> node option" where
  "lookup_path entries [] = None"
| "lookup_path entries [n] = map_of entries n"
| "lookup_path entries (n # ns) =
     (case map_of entries n of Some (Dir children) \<Rightarrow> lookup_path children ns | _ \<Rightarrow> None)"

text \<open>\<open>open(file_path, 'r', encoding='utf-8')\<close> and \<open>f.read()\<close>; a file holds the text
  \<open>read\<close> returns for it (decoded, line ends already translated to a newline).\<close>

definition read_text :: "(string \<times> node) list \<Rightarrow> fpath \<Rightarrow> error + string" where
  "read_text root p =
     (case lookup_path root p of
        None \<Rightarrow> Inl FileNotFoundError
      | Some (Dir children) \<Rightarrow> Inl IsADirectoryError
      | Some (File content) \<Rightarrow> Inr content)"

definition parse_frontmatter :: "loader \<Rightarrow> (string \<times> node) list \<Rightarrow> fpath \<Rightarrow> error + yaml" where
  "parse_frontmatter safe_load root file_path =
     bind_err (read_text root file_path) (parse_content safe_load)"

section \<open>Record builder and entry point\<close>

text \<open>The operator \<open>in\<close> and subscription on a decoded value: membership of a key in a
  dictionary, of an element in a list, of a substring in a string; \<open>TypeError\<close> on the
  rest. Only a dictionary can be subscripted by a string.\<close>

fun py_in :: "string \<Rightarrow> yaml \<Rightarrow> error + bool" where
  "py_in k (YDict kvs) = Inr (map_of kvs (YStr k) \<noteq> None)"
| "py_in k (YList xs) = Inr (List.member xs (YStr k))"
| "py_in k (YStr s) = Inr (str_contains s k)"
| "py_in k YNull = Inl TypeError"
| "py_in k (YBool b) = Inl TypeError"
| "py_in k (YInt i) = Inl TypeError"

fun py_getitem :: "yaml \<Rightarrow> string \<Rightarrow> error + yaml" where
  "py_getitem (YDict kvs) k =
     (case map_of kvs (YStr k) of None \<Rightarrow> Inl KeyError | Some v \<Rightarrow> Inr v)"
| "py_getitem (YList xs) k = Inl TypeError"
| "py_getitem (YStr s) k = Inl TypeError"
| "py_getitem YNull k = Inl TypeError"
| "py_getitem (YBool b) k = Inl TypeError"
| "py_getitem (YInt i) k = Inl TypeError"

text \<open>\<open>'name' in frontmatter and 'description' in frontmatter\<close>, left to right.\<close>

definition has_required :: "yaml \<Rightarrow> error + bool" where
  "has_required frontmatter =
     bind_err (py_in ''name'' frontmatter)
       (\<lambda>b. if b then py_in ''description'' frontmatter else Inr False)"

text \<open>The dictionaries \<open>main\<close> appends to \<open>skills\<close>: name and description are whatever the
  frontmatter holds, not necessarily strings.\<close>

record skill_dict =
  name_v :: yaml
  description_v :: yaml
  path_v :: string

text \<open>The text an f-string puts for a value: a string as it is; the text of any other
  value is the argument \<open>fmt\<close>.\<close>

definition py_str :: "(yaml \<Rightarrow> string) \<Rightarrow> yaml \<Rightarrow> string" where
  "py_str fmt v = (case v of YStr s \<Rightarrow> s | _ \<Rightarrow> fmt v)"

definition digit_char :: "nat \<Rightarrow> char" where
  "digit_char d = char_of (48 + d)"

fun str_nat :: "nat \<Rightarrow> string" where
  "str_nat n = (if n < 10 then [digit_char n] else str_nat (n div 10) @ [digit_char (n mod 10)])"

definition found_line :: "(yaml \<Rightarrow> string) \<Rightarrow> yaml \<Rightarrow> string" where
  "found_line fmt n = ''Found skill: '' @ py_str fmt n"

definition warning_line :: "fpath \<Rightarrow> string" where
  "warning_line skill_file =
     ''Warning: '' @ str_path skill_file @ '' missing name or description in frontmatter''"

record scan_state =
  skills :: "skill_dict list"
  out :: "string list"

text \<open>The body of the loop over \<open>skill_files\<close>; \<open>out\<close> collects the printed lines.\<close>

definition process_file ::
  "loader \<Rightarrow> (yaml \<Rightarrow> string) \<Rightarrow> (string \<times> node) list \<Rightarrow> fpath \<Rightarrow> scan_state \<Rightarrow> error + scan_state"
where
  "process_file safe_load fmt root skill_file s =
     bind_err (parse_frontmatter safe_load root skill_file) (\<lambda>frontmatter.
     bind_err (has_required frontmatter) (\<lambda>ok.
       if ok then
         bind_err (py_getitem frontmatter ''name'') (\<lambda>n.
         bind_err (py_getitem frontmatter ''description'') (\<lambda>d.
           Inr \<lparr>skills = skills s @ [\<lparr>name_v = n, description_v = d, path_v = str_path skill_file\<rparr>],
                out = out s @ [found_line fmt n]\<rparr>))
       else Inr (s\<lparr>out := out s @ [warning_line skill_file]\<rparr>)))"

text \<open>The loop: an exception leaves it at once, with what was printed so far.\<close>

fun process_files ::
  "loader \<Rightarrow> (yaml \<Rightarrow> string) \<Rightarrow> (string \<times> node) list \<Rightarrow> fpath list \<Rightarrow> scan_state
     \<Rightarrow> error option \<times> scan_state"
where
  "process_files safe_load fmt root [] s = (None, s)"
| "process_files safe_load fmt root (skill_file # rest) s =
     (case process_file safe_load fmt root skill_file s of
        Inl e \<Rightarrow> (Some e, s)
      | Inr s' \<Rightarrow> process_files safe_load fmt root rest s')"

text \<open>
  \<open>generate_readme\<close> calls \<open>.lower()\<close> on every name and \<open>.lower()\<close> or \<open>.replace()\<close> on every
  description; none of the other values of \<open>yaml\<close> has these methods, so a dictionary with
  such a value makes the call raise \<open>AttributeError\<close> before anything is written.
\<close>

fun as_skill :: "skill_dict \<Rightarrow> skill option" where
  "as_skill d =
     (case (name_v d, description_v d) of
        (YStr n, YStr desc) \<Rightarrow> Some \<lparr>name = n, description = desc, path = path_v d\<rparr>
      | _ \<Rightarrow> None)"

fun as_skills :: "skill_dict list \<Rightarrow> skill list option" where
  "as_skills [] = Some []"
| "as_skills (d # ds) =
     (case as_skill d of
        None \<Rightarrow> None
      | Some sk \<Rightarrow> map_option ((#) sk) (as_skills ds))"

record run =
  stdout :: "string list"
  written :: "string option"
  raised :: "error option"

definition summary_line :: "nat \<Rightarrow> string" where
  "summary_line n = [nl] @ ''Generated README.md with '' @ str_nat n @ '' skill(s)''"

text \<open>\<open>main\<close>: \<open>stdout\<close> is the list of printed lines, \<open>written\<close> the text written to
  README.md (\<open>None\<close>: the file is not opened for writing), \<open>raised\<close> the exception that
  ended the run, if any. The write itself is taken to succeed.\<close>

definition main ::
  "loader \<Rightarrow> (yaml \<Rightarrow> string) \<Rightarrow> (string \<times> node) list \<Rightarrow> string \<Rightarrow> run"
where
  "main safe_load fmt root timestamp =
     (let skill_files = find_skill_files root
      in if skill_files = []
         then \<lparr>stdout = [''No skill files found.''], written = None, raised = None\<rparr>
         else
           (case process_files safe_load fmt root skill_files \<lparr>skills = [], out = []\<rparr> of
              (Some e, s) \<Rightarrow> \<lparr>stdout = out s, written = None, raised = Some e\<rparr>
            | (None, s) \<Rightarrow>
                if skills s = []
                then \<lparr>stdout = out s @ [''No valid skills found.''], written = None, raised = None\<rparr>
                else
                  (case as_skills (skills s) of
                     None \<Rightarrow> \<lparr>stdout = out s, written = None, raised = Some AttributeError\<rparr>
                   | Some sks \<Rightarrow>
                       (let (sks', readme_content) = generate_readme sks timestamp
                        in \<lparr>stdout = out s @ [summary_line (length sks')],
                            written = Some readme_content, raised = None\<rparr>))))"

section \<open>Notions the properties are stated with\<close>

text \<open>The key test of \<open>main\<close> on the frontmatter of one discovered file.\<close>

definition required_check :: "loader \<Rightarrow> (string \<times> node) list \<Rightarrow> fpath \<Rightarrow> error + bool" where
  "required_check safe_load root skill_file =
     bind_err (parse_frontmatter safe_load root skill_file) has_required"





section \<open>Sample inputs\<close>

definition alpha :: skill where
  "alpha = \<lparr>name = ''Alpha Tool'', description = ''Always runs on save'', path = ''alpha/SKILL.md''\<rparr>"

definition beta :: skill where
  "beta = \<lparr>name = ''Beta Tool'', description = ''Formats a|b code'', path = ''beta/SKILL.md''\<rparr>"


text \<open>A file with a frontmatter block, and the blocks of the sample files.\<close>

definition fm_file :: "string \<Rightarrow> string" where
  "fm_file block = ''---'' @ [nl] @ block @ [nl] @ ''---'' @ [nl] @ ''# Body'' @ [nl]"

definition alpha_block :: string where
  "alpha_block = ''name: Alpha Tool'' @ [nl] @ ''description: Always runs on save''"

definition beta_block :: string where
  "beta_block = ''name: Beta Tool'' @ [nl] @ ''description: Formats a|b code''"

definition empty_values_block :: string where
  "empty_values_block =
     ''name: '' @ [CHR 0x22, CHR 0x22, nl] @ ''description: '' @ [CHR 0x22, CHR 0x22]"

definition list_block :: string where
  "list_block = ''- name'' @ [nl] @ ''- description''"

text \<open>What the decoder returns on the blocks of the sample files (and a syntax error on
  anything else).\<close>

definition sample_loader :: loader where
  "sample_loader t =
     (if t = alpha_block
        then Inr (YDict [(YStr ''name'', YStr ''Alpha Tool''),
                         (YStr ''description'', YStr ''Always runs on save'')])
      else if t = beta_block
        then Inr (YDict [(YStr ''name'', YStr ''Beta Tool''),
                         (YStr ''description'', YStr ''Formats a|b code'')])
      else if t = empty_values_block
        then Inr (YDict [(YStr ''name'', YStr []), (YStr ''description'', YStr [])])
      else if t = list_block
        then Inr (YList [YStr ''name'', YStr ''description''])
      else if t = ''title: Gamma''
        then Inr (YDict [(YStr ''title'', YStr ''Gamma'')])
      else if t = ''42'' then Inr (YInt 42)
      else if t = [] then Inr YNull
      else Inl YAMLError)"

definition sample_fmt :: "yaml \<Rightarrow> string" where
  "sample_fmt v = ''?''"

definition skill_dir :: "string \<Rightarrow> node" where
  "skill_dir content = Dir [(''SKILL.md'', File content)]"


section \<open>Properties of the string operations\<close>

lemma startswith_iff: "startswith s k \<longleftrightarrow> (\<exists>r. s = k @ r)"
  by (induction s k rule: startswith.induct) auto

lemma str_contains_iff: "str_contains s k \<longleftrightarrow> (\<exists>u v. s = u @ k @ v)"
proof (induction s)
  case Nil
  show ?case by auto
next
  case (Cons c cs)
  have "(\<exists>u v. c # cs = u @ k @ v) \<longleftrightarrow> (\<exists>r. c # cs = k @ r) \<or> (\<exists>u v. cs = u @ k @ v)"
  proof
    assume "\<exists>u v. c # cs = u @ k @ v"
    then obtain u v where uv: "c # cs = u @ k @ v" by blast
    show "(\<exists>r. c # cs = k @ r) \<or> (\<exists>u v. cs = u @ k @ v)"
    proof (cases u)
      case Nil
      with uv show ?thesis by auto
    next
      case (Cons a u')
      with uv have "cs = u' @ k @ v" by simp
      then show ?thesis by blast
    qed
  next
    assume "(\<exists>r. c # cs = k @ r) \<or> (\<exists>u v. cs = u @ k @ v)"
    then show "\<exists>u v. c # cs = u @ k @ v"
    proof
      assume "\<exists>r. c # cs = k @ r"
      then obtain r where "c # cs = [] @ k @ r" by auto
      then show ?thesis by blast
    next
      assume "\<exists>u v. cs = u @ k @ v"
      then obtain u v where "cs = u @ k @ v" by blast
      then have "c # cs = (c # u) @ k @ v" by simp
      then show ?thesis by blast
    qed
  qed
  with Cons show ?case by (simp add: startswith_iff)
qed

lemma replace_scan_char:
  "replace_scan [p] new s = concat (map (\<lambda>c. if c = p then new else [c]) s)"
  by (induction s) auto

lemma escape_description_eq:
  "escape_description d = concat (map (\<lambda>c. if c = pipe then [backslash, pipe] else [c]) d)"
  by (simp add: escape_description_def replace_def replace_scan_char)

section \<open>Properties of the classifier and the renderer\<close>

text \<open>
  C2. The classifier is true exactly for a present description whose lower-cased text has
  "always", "automatically" or "every" as a substring (so it is false for an absent and for
  an empty description), and the command is "Auto-invoked" when the classifier is true and
  otherwise "/" followed by the name as it is.
\<close>

theorem is_auto_invoked_iff_keyword:
  "(is_auto_invoked dopt \<longleftrightarrow>
     (\<exists>d. dopt = Some d \<and>
        ((\<exists>u v. lower d = u @ ''always'' @ v)
         \<or> (\<exists>u v. lower d = u @ ''automatically'' @ v)
         \<or> (\<exists>u v. lower d = u @ ''every'' @ v))))
   \<and> generate_command n dopt = (if is_auto_invoked dopt then ''Auto-invoked'' else ''/'' @ n)"
proof -
  have "is_auto_invoked dopt \<longleftrightarrow>
     (\<exists>d. dopt = Some d \<and>
        ((\<exists>u v. lower d = u @ ''always'' @ v)
         \<or> (\<exists>u v. lower d = u @ ''automatically'' @ v)
         \<or> (\<exists>u v. lower d = u @ ''every'' @ v)))"
  proof (cases dopt)
    case None
    then show ?thesis by simp
  next
    case (Some d)
    show ?thesis
    proof (cases "d = []")
      case True
      with Some show ?thesis by (simp add: lower_def)
    next
      case False
      with Some show ?thesis
        by (simp add: auto_keywords_def str_contains_iff Let_def del: str_contains.simps)
    qed
  qed
  then show ?thesis by (simp add: generate_command_def)
qed

theorem is_auto_invoked_iff_keyword_witness:
  "is_auto_invoked (Some ''Always runs on save'')
   \<and> generate_command ''Alpha Tool'' (Some ''Always runs on save'') = ''Auto-invoked''
   \<and> \<not> is_auto_invoked None
   \<and> generate_command ''Beta Tool'' None = ''/Beta Tool''"
proof -
  note alpha_fact = is_auto_invoked_iff_keyword [of "Some ''Always runs on save''" "''Alpha Tool''"]
  note beta_fact = is_auto_invoked_iff_keyword [of None "''Beta Tool''"]
  have l: "lower ''Always runs on save'' = [] @ ''always'' @ '' runs on save''"
    by code_simp
  have ex: "\<exists>u v. lower ''Always runs on save'' = u @ ''always'' @ v"
    by (rule exI [of _ "[]"], rule exI [of _ "'' runs on save''"], rule l)
  have a: "is_auto_invoked (Some ''Always runs on save'')"
    by (rule iffD2 [OF conjunct1 [OF alpha_fact]],
        rule exI [of _ "''Always runs on save''"], rule conjI [OF refl], rule disjI1, rule ex)
  have b: "generate_command ''Alpha Tool'' (Some ''Always runs on save'') = ''Auto-invoked''"
    using conjunct2 [OF alpha_fact] a by (simp only: if_True)
  have c: "\<not> is_auto_invoked None"
    using conjunct1 [OF beta_fact] by simp
  have d: "generate_command ''Beta Tool'' None = ''/Beta Tool''"
    using conjunct2 [OF beta_fact] c by simp
  show ?thesis
    by (rule conjI [OF a], rule conjI [OF b], rule conjI [OF c], rule d)
qed

lemma foldl_rows:
  "foldl (\<lambda>readme sk. readme @ render_row sk) acc rows = acc @ concat (map render_row rows)"
  by (induction rows arbitrary: acc) auto

lemma generate_readme_eq:
  "generate_readme sks ts =
     (sort_key (\<lambda>x. lower (name x)) sks,
      header @ concat (map render_row (sort_key (\<lambda>x. lower (name x)) sks)) @ footer ts)"
  by (simp add: generate_readme_def Let_def foldl_rows)

text \<open>
  C3. In the row of a record the description cell is the description with each "|" turned
  into a backslash followed by "|", every other character staying as it is and where it is.
\<close>

theorem render_row_escapes_pipes:
  "render_row sk =
     ''| '' @ skill_link sk @ '' | ''
       @ concat (map (\<lambda>c. if c = CHR ''|'' then [CHR 0x5C, CHR ''|''] else [c]) (description sk))
       @ '' | '' @ generate_command (name sk) (Some (description sk)) @ '' |'' @ [CHR 0x0A]"
  unfolding render_row_def Let_def escape_description_eq pipe_def backslash_def nl_def by simp

theorem render_row_escapes_pipes_witness:
  "render_row beta
     = ''| [Beta Tool](beta/SKILL.md) | Formats a'' @ [CHR 0x5C] @ ''|b code | /Beta Tool |'' @ [CHR 0x0A]"
proof -
  have "generate_command (name beta) (Some (description beta)) = ''/Beta Tool''"
    by code_simp
  then show ?thesis
    unfolding render_row_escapes_pipes [of beta] by (simp add: beta_def skill_link_def)
qed

text \<open>
  C4. The rows of the document are the rows of the input records in an order that ascends
  by lower-cased name, and records with the same lower-cased name keep the order they had
  in the input (the sort is stable), whatever order the input has.
\<close>

theorem generate_readme_rows_sorted:
  "\<exists>rows. snd (generate_readme sks ts) = header @ concat (map render_row rows) @ footer ts
      \<and> sorted (map (\<lambda>x. lower (name x)) rows)
      \<and> mset rows = mset sks
      \<and> (\<forall>k. filter (\<lambda>x. lower (name x) = k) rows = filter (\<lambda>x. lower (name x) = k) sks)"
proof (intro exI conjI allI)
  show "snd (generate_readme sks ts)
      = header @ concat (map render_row (sort_key (\<lambda>x. lower (name x)) sks)) @ footer ts"
    by (simp add: generate_readme_eq)
  show "sorted (map (\<lambda>x. lower (name x)) (sort_key (\<lambda>x. lower (name x)) sks))"
    by (rule sorted_sort_key)
  show "mset (sort_key (\<lambda>x. lower (name x)) sks) = mset sks"
    by simp
  show "filter (\<lambda>x. lower (name x) = k) (sort_key (\<lambda>x. lower (name x)) sks)
      = filter (\<lambda>x. lower (name x) = k) sks" for k
    by (rule sort_key_stable)
qed

theorem generate_readme_rows_sorted_witness:
  "\<exists>rows. snd (generate_readme [beta, alpha] ''2026-01-01 00:00:00 UTC'')
        = header @ concat (map render_row rows) @ footer ''2026-01-01 00:00:00 UTC''
      \<and> sorted (map (\<lambda>x. lower (name x)) rows)
      \<and> mset rows = mset [beta, alpha]
      \<and> (\<forall>k. filter (\<lambda>x. lower (name x) = k) rows
             = filter (\<lambda>x. lower (name x) = k) [beta, alpha])"
  by (rule generate_readme_rows_sorted)

text \<open>
  C8. Two calls on the same records give documents with one and the same text before the
  footer (header and rows); the documents differ at most in the timestamp inside the
  footer's last line. The same holds when the second call gets the list as the first call
  left it.
\<close>

theorem generate_readme_deterministic:
  "\<exists>body. snd (generate_readme sks t1)
            = body @ [nl] @ ''---'' @ [nl] @ ''*Last updated: '' @ t1 @ ''*'' @ [nl]
        \<and> snd (generate_readme sks t2)
            = body @ [nl] @ ''---'' @ [nl] @ ''*Last updated: '' @ t2 @ ''*'' @ [nl]
        \<and> snd (generate_readme (fst (generate_readme sks t1)) t2)
            = body @ [nl] @ ''---'' @ [nl] @ ''*Last updated: '' @ t2 @ ''*'' @ [nl]
        \<and> body = header @ concat (map render_row (fst (generate_readme sks t1)))"
proof -
  have idem: "sort_key (\<lambda>x. lower (name x)) (sort_key (\<lambda>x. lower (name x)) sks)
      = sort_key (\<lambda>x. lower (name x)) sks"
    by (rule sort_key_id_if_sorted) (rule sorted_sort_key)
  show ?thesis
    by (rule exI [of _ "header @ concat (map render_row (sort_key (\<lambda>x. lower (name x)) sks))"])
       (simp add: generate_readme_eq footer_def idem)
qed

theorem generate_readme_deterministic_witness:
  "\<exists>body. snd (generate_readme [beta, alpha] ''2026-01-01 00:00:00 UTC'')
            = body @ [nl] @ ''---'' @ [nl] @ ''*Last updated: '' @ ''2026-01-01 00:00:00 UTC'' @ ''*'' @ [nl]
        \<and> snd (generate_readme [beta, alpha] ''2026-01-01 00:00:05 UTC'')
            = body @ [nl] @ ''---'' @ [nl] @ ''*Last updated: '' @ ''2026-01-01 00:00:05 UTC'' @ ''*'' @ [nl]
        \<and> snd (generate_readme (fst (generate_readme [beta, alpha] ''2026-01-01 00:00:00 UTC''))
              ''2026-01-01 00:00:05 UTC'')
            = body @ [nl] @ ''---'' @ [nl] @ ''*Last updated: '' @ ''2026-01-01 00:00:05 UTC'' @ ''*'' @ [nl]
        \<and> body = header @ concat (map render_row
              (fst (generate_readme [beta, alpha] ''2026-01-01 00:00:00 UTC'')))"
  by (rule generate_readme_deterministic)

text \<open>
  C10. The list the caller passed is, after the call, in ascending order of lower-cased
  name, with the same records and ties in their old order; it is the list as passed only
  when that was in this order already.
\<close>

theorem generate_readme_sorts_argument:
  "sorted (map (\<lambda>x. lower (name x)) (fst (generate_readme sks ts)))
   \<and> mset (fst (generate_readme sks ts)) = mset sks
   \<and> (\<forall>k. filter (\<lambda>x. lower (name x) = k) (fst (generate_readme sks ts))
           = filter (\<lambda>x. lower (name x) = k) sks)
   \<and> (fst (generate_readme sks ts) = sks \<longleftrightarrow> sorted (map (\<lambda>x. lower (name x)) sks))"
proof -
  let ?f = "\<lambda>x. lower (name x)"
  have a: "fst (generate_readme sks ts) = sort_key ?f sks"
    by (simp add: generate_readme_eq)
  have s: "sorted (map ?f (sort_key ?f sks))" by (rule sorted_sort_key)
  have "sort_key ?f sks = sks \<longleftrightarrow> sorted (map ?f sks)"
  proof
    assume "sort_key ?f sks = sks"
    with s show "sorted (map ?f sks)" by simp
  next
    assume "sorted (map ?f sks)"
    then show "sort_key ?f sks = sks" by (rule sort_key_id_if_sorted)
  qed
  with a s show ?thesis by (simp add: sort_key_stable)
qed

theorem generate_readme_sorts_argument_witness:
  "fst (generate_readme [beta, alpha] ''2026-01-01 00:00:00 UTC'') \<noteq> [beta, alpha]
   \<and> mset (fst (generate_readme [beta, alpha] ''2026-01-01 00:00:00 UTC'')) = mset [beta, alpha]"
proof -
  note fact = generate_readme_sorts_argument [of "[beta, alpha]" "''2026-01-01 00:00:00 UTC''"]
  have unsorted: "\<not> sorted (map (\<lambda>x. lower (name x)) [beta, alpha])"
    by code_simp
  have a: "fst (generate_readme [beta, alpha] ''2026-01-01 00:00:00 UTC'') \<noteq> [beta, alpha]"
    using conjunct2 [OF conjunct2 [OF conjunct2 [OF fact]]] unsorted by simp
  have b: "mset (fst (generate_readme [beta, alpha] ''2026-01-01 00:00:00 UTC'')) = mset [beta, alpha]"
    by (rule conjunct1 [OF conjunct2 [OF fact]])
  show ?thesis by (rule conjI [OF a b])
qed

section \<open>Properties of the metadata extractor\<close>

lemma is_space_nl: "is_space nl"
  by (simp add: is_space_def nl_def)

lemma marker_end_iff:
  "marker_end s \<longleftrightarrow> (\<exists>ws rest. s = ws @ nl # rest \<and> list_all is_space ws)"
proof (induction s)
  case Nil
  show ?case by simp
next
  case (Cons c cs)
  show ?case
  proof
    assume m: "marker_end (c # cs)"
    then have sp: "is_space c" and alt: "marker_end cs \<or> c = nl"
      by (auto split: if_splits)
    from alt show "\<exists>ws rest. c # cs = ws @ nl # rest \<and> list_all is_space ws"
    proof
      assume "marker_end cs"
      with Cons.IH obtain ws rest where "cs = ws @ nl # rest" "list_all is_space ws" by blast
      with sp have "c # cs = (c # ws) @ nl # rest \<and> list_all is_space (c # ws)" by simp
      then show ?thesis by blast
    next
      assume "c = nl"
      then have "c # cs = [] @ nl # cs \<and> list_all is_space []" by simp
      then show ?thesis by blast
    qed
  next
    assume "\<exists>ws rest. c # cs = ws @ nl # rest \<and> list_all is_space ws"
    then obtain ws rest where eq: "c # cs = ws @ nl # rest" and sp: "list_all is_space ws" by blast
    show "marker_end (c # cs)"
    proof (cases ws)
      case Nil
      with eq have "c = nl" by simp
      then show ?thesis by (simp add: is_space_nl)
    next
      case (Cons a ws')
      with eq sp have "c = a" "cs = ws' @ nl # rest" "is_space a" "list_all is_space ws'" by auto
      with Cons.IH have "marker_end cs" "is_space c" by auto
      then show ?thesis by simp
    qed
  qed
qed

lemma closing_iff:
  "closing s \<longleftrightarrow> (\<exists>ws rest. s = nl # ''---'' @ ws @ nl # rest \<and> list_all is_space ws)"
proof
  assume "closing s"
  then have "startswith s (nl # ''---'')" and m: "marker_end (drop 4 s)"
    by (simp_all add: closing_def)
  then obtain r where r: "s = (nl # ''---'') @ r" unfolding startswith_iff by blast
  then have "drop 4 s = r" by simp
  with m obtain ws rest where "r = ws @ nl # rest" "list_all is_space ws"
    unfolding marker_end_iff by blast
  with r have "s = nl # ''---'' @ ws @ nl # rest \<and> list_all is_space ws" by simp
  then show "\<exists>ws rest. s = nl # ''---'' @ ws @ nl # rest \<and> list_all is_space ws"
    by (intro exI)
next
  assume "\<exists>ws rest. s = nl # ''---'' @ ws @ nl # rest \<and> list_all is_space ws"
  then obtain ws rest where s: "s = nl # ''---'' @ ws @ nl # rest" and sp: "list_all is_space ws"
    by blast
  from s have a: "s = (nl # ''---'') @ (ws @ nl # rest)" by simp
  then have st: "startswith s (nl # ''---'')" unfolding startswith_iff by (intro exI)
  from s have "drop 4 s = ws @ nl # rest" by simp
  with sp have "marker_end (drop 4 s)" unfolding marker_end_iff by blast
  with st show "closing s" by (simp add: closing_def)
qed

lemma not_closing_Nil: "\<not> closing []"
  by (simp add: closing_def)

lemma lazy_group_iff:
  "(\<exists>g. lazy_group s = Some g) \<longleftrightarrow> (\<exists>body tl. s = body @ tl \<and> closing tl)"
proof (induction s)
  case Nil
  show ?case by (simp add: not_closing_Nil)
next
  case (Cons c cs)
  show ?case
  proof (cases "closing (c # cs)")
    case True
    then have "c # cs = [] @ (c # cs) \<and> closing (c # cs)" by simp
    then have "\<exists>body tl. c # cs = body @ tl \<and> closing tl" by (intro exI)
    with True show ?thesis by simp
  next
    case False
    have "(\<exists>body tl. c # cs = body @ tl \<and> closing tl) \<longleftrightarrow> (\<exists>body tl. cs = body @ tl \<and> closing tl)"
    proof
      assume "\<exists>body tl. c # cs = body @ tl \<and> closing tl"
      then obtain body tl where eq: "c # cs = body @ tl" and cl: "closing tl" by blast
      show "\<exists>body tl. cs = body @ tl \<and> closing tl"
      proof (cases body)
        case Nil
        with eq cl False show ?thesis by simp
      next
        case (Cons a body')
        with eq have "cs = body' @ tl" by simp
        with cl show ?thesis by blast
      qed
    next
      assume "\<exists>body tl. cs = body @ tl \<and> closing tl"
      then obtain body tl where "cs = body @ tl" and cl: "closing tl" by blast
      then have "c # cs = (c # body) @ tl" by simp
      with cl show "\<exists>body tl. c # cs = body @ tl \<and> closing tl" by blast
    qed
    with False Cons.IH show ?thesis by simp
  qed
qed

lemma opening_rest_iff:
  "(\<exists>g. opening_rest s = Some g) \<longleftrightarrow>
     (\<exists>ws rest. s = ws @ nl # rest \<and> list_all is_space ws \<and> (\<exists>g. lazy_group rest = Some g))"
proof (induction s)
  case Nil
  show ?case by simp
next
  case (Cons c cs)
  let ?R = "\<lambda>s. \<exists>ws rest. s = ws @ nl # rest \<and> list_all is_space ws \<and> (\<exists>g. lazy_group rest = Some g)"
  have split: "?R (c # cs) \<longleftrightarrow> is_space c \<and> (?R cs \<or> (c = nl \<and> (\<exists>g. lazy_group cs = Some g)))"
  proof
    assume "?R (c # cs)"
    then obtain ws rest where eq: "c # cs = ws @ nl # rest" and sp: "list_all is_space ws"
      and lg: "\<exists>g. lazy_group rest = Some g" by blast
    show "is_space c \<and> (?R cs \<or> (c = nl \<and> (\<exists>g. lazy_group cs = Some g)))"
    proof (cases ws)
      case Nil
      with eq lg show ?thesis by (auto simp: is_space_nl)
    next
      case (Cons a ws')
      with eq sp have "is_space c" "cs = ws' @ nl # rest" "list_all is_space ws'" by auto
      with lg show ?thesis by blast
    qed
  next
    assume r: "is_space c \<and> (?R cs \<or> (c = nl \<and> (\<exists>g. lazy_group cs = Some g)))"
    then have sp: "is_space c" by simp
    from r have "?R cs \<or> (c = nl \<and> (\<exists>g. lazy_group cs = Some g))" by simp
    then show "?R (c # cs)"
    proof
      assume "?R cs"
      then obtain ws rest where "cs = ws @ nl # rest" "list_all is_space ws"
        "\<exists>g. lazy_group rest = Some g" by blast
      with sp have "c # cs = (c # ws) @ nl # rest \<and> list_all is_space (c # ws)
          \<and> (\<exists>g. lazy_group rest = Some g)" by simp
      then show ?thesis by blast
    next
      assume "c = nl \<and> (\<exists>g. lazy_group cs = Some g)"
      then have "c # cs = [] @ nl # cs \<and> list_all is_space [] \<and> (\<exists>g. lazy_group cs = Some g)"
        by simp
      then show ?thesis by blast
    qed
  qed
  have "(\<exists>g. opening_rest (c # cs) = Some g)
      \<longleftrightarrow> is_space c \<and> ((\<exists>g. opening_rest cs = Some g) \<or> (c = nl \<and> (\<exists>g. lazy_group cs = Some g)))"
    by (auto split: option.splits)
  with Cons.IH split show ?case by simp
qed

lemma re_match_iff:
  "(\<exists>g. re_match content = Some g) \<longleftrightarrow>
     (\<exists>ws1 body ws2 rest.
        content = ''---'' @ ws1 @ nl # body @ nl # ''---'' @ ws2 @ nl # rest
        \<and> list_all is_space ws1 \<and> list_all is_space ws2)"
proof
  assume "\<exists>g. re_match content = Some g"
  then obtain g where g: "re_match content = Some g" by blast
  then have st: "startswith content ''---''" and o: "opening_rest (drop 3 content) = Some g"
    by (auto simp: re_match_def split: if_splits)
  from st obtain r where r: "content = ''---'' @ r" unfolding startswith_iff by blast
  then have "drop 3 content = r" by simp
  with o have "\<exists>g. opening_rest r = Some g" by simp
  then obtain ws1 rest1 where r1: "r = ws1 @ nl # rest1" and s1: "list_all is_space ws1"
    and lg: "\<exists>g. lazy_group rest1 = Some g"
    unfolding opening_rest_iff by blast
  from lg obtain body tl where r2: "rest1 = body @ tl" and cl: "closing tl"
    unfolding lazy_group_iff by blast
  from cl obtain ws2 rest where r3: "tl = nl # ''---'' @ ws2 @ nl # rest" and s2: "list_all is_space ws2"
    unfolding closing_iff by blast
  from r r1 r2 r3 have "content = ''---'' @ ws1 @ nl # body @ nl # ''---'' @ ws2 @ nl # rest"
    by simp
  with s1 s2 show "\<exists>ws1 body ws2 rest.
        content = ''---'' @ ws1 @ nl # body @ nl # ''---'' @ ws2 @ nl # rest
        \<and> list_all is_space ws1 \<and> list_all is_space ws2"
    by (intro exI conjI)
next
  assume "\<exists>ws1 body ws2 rest.
        content = ''---'' @ ws1 @ nl # body @ nl # ''---'' @ ws2 @ nl # rest
        \<and> list_all is_space ws1 \<and> list_all is_space ws2"
  then obtain ws1 body ws2 rest where
    c: "content = ''---'' @ ws1 @ nl # body @ nl # ''---'' @ ws2 @ nl # rest"
    and s1: "list_all is_space ws1" and s2: "list_all is_space ws2"
    by blast
  define tl where "tl = nl # ''---'' @ ws2 @ nl # rest"
  define rest1 where "rest1 = body @ tl"
  define r where "r = ws1 @ nl # rest1"
  have "tl = nl # ''---'' @ ws2 @ nl # rest \<and> list_all is_space ws2"
    using s2 by (simp add: tl_def)
  then have cl: "closing tl"
    unfolding closing_iff by (intro exI)
  then have "rest1 = body @ tl \<and> closing tl"
    by (simp add: rest1_def)
  then have "\<exists>g. lazy_group rest1 = Some g"
    unfolding lazy_group_iff by (intro exI)
  with s1 have "r = ws1 @ nl # rest1 \<and> list_all is_space ws1 \<and> (\<exists>g. lazy_group rest1 = Some g)"
    by (simp add: r_def)
  then have "\<exists>g. opening_rest r = Some g"
    unfolding opening_rest_iff by (intro exI)
  moreover from c have cr: "content = ''---'' @ r"
    by (simp add: r_def rest1_def tl_def)
  then have "startswith content ''---''"
    unfolding startswith_iff by (intro exI)
  moreover from cr have "drop 3 content = r" by simp
  ultimately show "\<exists>g. re_match content = Some g"
    by (simp add: re_match_def)
qed

lemma parse_content_cases:
  "parse_content L content =
     (case re_match content of
        None \<Rightarrow> Inr (YDict [])
      | Some t \<Rightarrow>
          (case L t of
             Inr v \<Rightarrow> Inr (if truthy v then v else YDict [])
           | Inl e \<Rightarrow> (if e = YAMLError then Inr (YDict []) else Inl e)))"
  by (simp add: parse_content_def split: option.splits sum.splits error.splits)

text \<open>
  C6. For a file that can be read, the extractor returns the empty mapping when the
  pattern does not match the content, and also when it matches and the decoder raises
  \<open>YAMLError\<close> on the block; neither case raises.
\<close>

theorem parse_frontmatter_empty_mapping:
  assumes "read_text root p = Inr content"
  shows "(re_match content = None \<longrightarrow> parse_frontmatter L root p = Inr (YDict []))
       \<and> (\<forall>t. re_match content = Some t \<and> L t = Inl YAMLError
              \<longrightarrow> parse_frontmatter L root p = Inr (YDict []))"
  using assms by (simp add: parse_frontmatter_def bind_err_def parse_content_cases)

theorem parse_frontmatter_empty_mapping_witness:
  "parse_frontmatter sample_loader [(''a'', skill_dir ''# no frontmatter'')] [''a'', ''SKILL.md'']
     = Inr (YDict [])
   \<and> parse_frontmatter sample_loader [(''a'', skill_dir (fm_file ''name: [unclosed''))]
        [''a'', ''SKILL.md'']
     = Inr (YDict [])"
proof -
  have r1: "read_text [(''a'', skill_dir ''# no frontmatter'')] [''a'', ''SKILL.md'']
      = Inr ''# no frontmatter''"
    by code_simp
  have m1: "re_match ''# no frontmatter'' = None"
    by code_simp
  have r2: "read_text [(''a'', skill_dir (fm_file ''name: [unclosed''))] [''a'', ''SKILL.md'']
      = Inr (fm_file ''name: [unclosed'')"
    by code_simp
  have m2: "re_match (fm_file ''name: [unclosed'') = Some ''name: [unclosed''"
    by code_simp
  have l2: "sample_loader ''name: [unclosed'' = Inl YAMLError"
    by code_simp
  have a: "parse_frontmatter sample_loader [(''a'', skill_dir ''# no frontmatter'')]
      [''a'', ''SKILL.md''] = Inr (YDict [])"
    by (rule mp [OF conjunct1 [OF parse_frontmatter_empty_mapping [where L = sample_loader, OF r1]] m1])
  have b: "parse_frontmatter sample_loader [(''a'', skill_dir (fm_file ''name: [unclosed''))]
      [''a'', ''SKILL.md''] = Inr (YDict [])"
    by (rule mp [OF spec [OF conjunct2 [OF parse_frontmatter_empty_mapping [where L = sample_loader, OF r2]]]
          conjI [OF m2 l2]])
  show ?thesis by (rule conjI [OF a b])
qed

text \<open>
  C7 (as the code has it). The pattern matches exactly the contents that begin with three
  hyphens, then whitespace, a newline, any text (the block, possibly empty), a newline,
  three hyphens, whitespace and a newline. Whitespace is allowed after each marker only:
  the content has to begin with the hyphens, and the closing hyphens have to come right
  after a newline.
\<close>

theorem re_match_locates_block:
  "re_match content \<noteq> None \<longleftrightarrow>
     (\<exists>ws1 body ws2 rest.
        content = ''---'' @ ws1 @ nl # body @ nl # ''---'' @ ws2 @ nl # rest
        \<and> list_all is_space ws1 \<and> list_all is_space ws2)"
  using re_match_iff [of content] by simp

theorem re_match_locates_block_witness:
  "re_match (''---'' @ '' '' @ nl # ''name: x'' @ nl # ''---'' @ [] @ nl # ''# Body'') \<noteq> None"
proof -
  have s1: "list_all is_space '' ''" by (simp add: is_space_def)
  have s2: "list_all is_space []" by simp
  have "\<exists>ws1 body ws2 rest.
      ''---'' @ '' '' @ nl # ''name: x'' @ nl # ''---'' @ [] @ nl # ''# Body''
        = ''---'' @ ws1 @ nl # body @ nl # ''---'' @ ws2 @ nl # rest
      \<and> list_all is_space ws1 \<and> list_all is_space ws2"
    by (intro exI conjI, rule refl, rule s1, rule s2)
  then show ?thesis by (rule iffD2 [OF re_match_locates_block])
qed

text \<open>The claim as the specification words it fails: one space before the first marker,
  or before the second one, and the block is not found.\<close>

theorem re_match_leading_space_counterexample:
  "is_space CHR '' ''
   \<and> re_match ('' '' @ ''---'' @ nl # ''name: x'' @ nl # ''---'' @ nl # ''# Body'') = None
   \<and> re_match (''---'' @ nl # ''name: x'' @ nl # '' '' @ ''---'' @ nl # ''# Body'') = None
   \<and> re_match (''---'' @ nl # ''name: x'' @ nl # ''---'' @ nl # ''# Body'') = Some ''name: x''"
  by code_simp

text \<open>
  C9. When the file can be read, the pattern matches and the decoder returns a value, the
  extractor returns that value as it is if it is truthy, mapping or not, and the empty
  mapping if it is falsy.
\<close>

theorem parse_frontmatter_returns_decoded:
  assumes "read_text root p = Inr content"
    and "re_match content = Some t"
    and "L t = Inr v"
  shows "parse_frontmatter L root p = Inr (if truthy v then v else YDict [])"
  using assms by (simp add: parse_frontmatter_def bind_err_def parse_content_cases)

theorem parse_frontmatter_returns_decoded_witness:
  "parse_frontmatter sample_loader [(''a'', skill_dir (fm_file list_block))] [''a'', ''SKILL.md'']
     = Inr (YList [YStr ''name'', YStr ''description''])
   \<and> parse_frontmatter sample_loader [(''a'', skill_dir (fm_file []))] [''a'', ''SKILL.md'']
     = Inr (YDict [])"
proof -
  have r1: "read_text [(''a'', skill_dir (fm_file list_block))] [''a'', ''SKILL.md'']
      = Inr (fm_file list_block)"
    by code_simp
  have m1: "re_match (fm_file list_block) = Some list_block"
    by code_simp
  have l1: "sample_loader list_block = Inr (YList [YStr ''name'', YStr ''description''])"
    by code_simp
  have r2: "read_text [(''a'', skill_dir (fm_file []))] [''a'', ''SKILL.md''] = Inr (fm_file [])"
    by code_simp
  have m2: "re_match (fm_file []) = Some []"
    by code_simp
  have l2: "sample_loader [] = Inr YNull"
    by code_simp
  have a: "parse_frontmatter sample_loader [(''a'', skill_dir (fm_file list_block))]
      [''a'', ''SKILL.md''] = Inr (YList [YStr ''name'', YStr ''description''])"
    using parse_frontmatter_returns_decoded [where L = sample_loader, OF r1 m1 l1] by simp
  have b: "parse_frontmatter sample_loader [(''a'', skill_dir (fm_file []))]
      [''a'', ''SKILL.md''] = Inr (YDict [])"
    using parse_frontmatter_returns_decoded [where L = sample_loader, OF r2 m2 l2] by simp
  show ?thesis by (rule conjI [OF a b])
qed

section \<open>Properties of the record builder and of the run\<close>

lemma process_file_not_required:
  assumes "required_check L root p = Inr False"
  shows "process_file L F root p s = Inr (s\<lparr>out := out s @ [warning_line p]\<rparr>)"
  using assms
  by (auto simp: required_check_def process_file_def bind_err_def split: sum.splits)

lemma process_files_none_required:
  assumes "\<forall>p \<in> set ps. required_check L root p = Inr False"
  shows "process_files L F root ps s = (None, s\<lparr>out := out s @ map warning_line ps\<rparr>)"
  using assms
proof (induction ps arbitrary: s)
  case Nil
  show ?case by simp
next
  case (Cons p ps)
  then have "process_file L F root p s = Inr (s\<lparr>out := out s @ [warning_line p]\<rparr>)"
    by (simp add: process_file_not_required)
  with Cons show ?case by simp
qed

text \<open>
  The two empty cases of \<open>main\<close>, where the key test gives a verdict. When discovery
  finds no file, the run prints "No skill files found.", writes nothing and ends normally.
  When it finds files and the key test is false on every one of them, the run prints one
  warning per file and then "No valid skills found.", writes nothing and ends normally.
\<close>

lemma main_short_circuit:
  "(find_skill_files root = [] \<longrightarrow>
      main L F root ts = \<lparr>stdout = [''No skill files found.''], written = None, raised = None\<rparr>)
   \<and> (find_skill_files root \<noteq> []
        \<and> (\<forall>p \<in> set (find_skill_files root). required_check L root p = Inr False) \<longrightarrow>
      main L F root ts =
        \<lparr>stdout = map warning_line (find_skill_files root) @ [''No valid skills found.''],
         written = None, raised = None\<rparr>)"
proof (intro conjI impI)
  assume "find_skill_files root = []"
  then show "main L F root ts
      = \<lparr>stdout = [''No skill files found.''], written = None, raised = None\<rparr>"
    by (simp add: main_def)
next
  assume a: "find_skill_files root \<noteq> []
        \<and> (\<forall>p \<in> set (find_skill_files root). required_check L root p = Inr False)"
  then have "process_files L F root (find_skill_files root) \<lparr>skills = [], out = []\<rparr>
      = (None, \<lparr>skills = [], out = map warning_line (find_skill_files root)\<rparr>)"
    by (simp add: process_files_none_required)
  with a show "main L F root ts =
        \<lparr>stdout = map warning_line (find_skill_files root) @ [''No valid skills found.''],
         written = None, raised = None\<rparr>"
    by (simp add: main_def)
qed

lemma main_short_circuit_example:
  "main sample_loader sample_fmt [(''notes.txt'', File ''plain'')] ''2026-01-01 00:00:00 UTC''
     = \<lparr>stdout = [''No skill files found.''], written = None, raised = None\<rparr>
   \<and> main sample_loader sample_fmt [(''gamma'', skill_dir (fm_file ''title: Gamma''))]
       ''2026-01-01 00:00:00 UTC''
     = \<lparr>stdout = [''Warning: gamma/SKILL.md missing name or description in frontmatter'',
                   ''No valid skills found.''],
         written = None, raised = None\<rparr>"
proof -
  let ?r1 = "[(''notes.txt'', File ''plain'')]"
  let ?r2 = "[(''gamma'', skill_dir (fm_file ''title: Gamma''))]"
  have f1: "find_skill_files ?r1 = []"
    by code_simp
  have f2: "find_skill_files ?r2 = [[''gamma'', ''SKILL.md'']]"
    by code_simp
  have c2: "required_check sample_loader ?r2 [''gamma'', ''SKILL.md''] = Inr False"
    by code_simp
  have w2: "warning_line [''gamma'', ''SKILL.md'']
      = ''Warning: gamma/SKILL.md missing name or description in frontmatter''"
    by code_simp
  have a: "main sample_loader sample_fmt ?r1 ''2026-01-01 00:00:00 UTC''
      = \<lparr>stdout = [''No skill files found.''], written = None, raised = None\<rparr>"
    by (rule mp [OF conjunct1 [OF main_short_circuit] f1])
  have h2: "find_skill_files ?r2 \<noteq> []
      \<and> (\<forall>p \<in> set (find_skill_files ?r2). required_check sample_loader ?r2 p = Inr False)"
    unfolding f2 using c2 by simp
  have "main sample_loader sample_fmt ?r2 ''2026-01-01 00:00:00 UTC''
      = \<lparr>stdout = map warning_line (find_skill_files ?r2) @ [''No valid skills found.''],
         written = None, raised = None\<rparr>"
    by (rule mp [OF conjunct2 [OF main_short_circuit [where L = sample_loader]] h2])
  then have b: "main sample_loader sample_fmt ?r2 ''2026-01-01 00:00:00 UTC''
      = \<lparr>stdout = [''Warning: gamma/SKILL.md missing name or description in frontmatter'',
                   ''No valid skills found.''],
         written = None, raised = None\<rparr>"
    unfolding f2 by (simp only: list.map w2 append.simps)
  show ?thesis by (rule conjI [OF a b])
qed

text \<open>
  C5. A run in which no record passes the key test should print "No valid skills found.",
  write nothing and end normally. The code misses a case: the extractor, declared to return
  a dictionary and returning the empty one when there is no block, when the decoder raises
  \<open>YAMLError\<close> and when the decoded value is falsy, hands a truthy scalar through as it
  is. On a run whose only file has a block that decodes to the integer 42 the key test
  itself raises \<open>TypeError\<close>: nothing is printed, nothing is written, and the run does
  not end normally.
\<close>

theorem main_raises_on_scalar_frontmatter:
  "find_skill_files [(''n'', skill_dir (fm_file ''42''))] = [[''n'', ''SKILL.md'']]
   \<and> parse_frontmatter sample_loader [(''n'', skill_dir (fm_file ''42''))] [''n'', ''SKILL.md'']
       = Inr (YInt 42)
   \<and> required_check sample_loader [(''n'', skill_dir (fm_file ''42''))] [''n'', ''SKILL.md'']
       = Inl TypeError
   \<and> stdout (main sample_loader sample_fmt [(''n'', skill_dir (fm_file ''42''))]
        ''2026-01-01 00:00:00 UTC'') = []
   \<and> written (main sample_loader sample_fmt [(''n'', skill_dir (fm_file ''42''))]
        ''2026-01-01 00:00:00 UTC'') = None
   \<and> raised (main sample_loader sample_fmt [(''n'', skill_dir (fm_file ''42''))]
        ''2026-01-01 00:00:00 UTC'') = Some TypeError"
  by code_simp













end
